theory Spec2Isabelle
  imports Main "HOL-Library.Char_ord" "HOL-Library.List_Lexorder"
begin

section \<open>Dense numeric arrays\<close>

text \<open>
  The polynomial arrays of numpoly are built on the dense arrays of numpy. A dense array
  is modelled by its shape, the tag of its element type and its elements in row-major
  order. The elements are numbers of one idealised type \<open>'a\<close> (a commutative ring in
  the theorems about values): machine overflow and floating-point rounding are not
  modelled, the element type is carried as a tag only.
\<close>

datatype error = ShapeError | DtypeError | BroadcastError | IndexError | ValueError | KeyError | TypeError

datatype dtype =
  Bool | Int8 | Int16 | Int32 | Int64 | UInt8 | UInt16 | UInt32 | UInt64
  | Float16 | Float32 | Float64

record 'a ndarray =
  shape :: "nat list"
  dtype :: dtype
  data :: "'a list"

definition wf_array :: "'a ndarray \<Rightarrow> bool" where
  "wf_array a = (length (data a) = prod_list (shape a))"

fun sequence :: "('e + 'a) list \<Rightarrow> 'e + 'a list" where
  "sequence [] = Inr []"
| "sequence (x # xs) =
     (case x of
        Inl e \<Rightarrow> Inl e
      | Inr v \<Rightarrow> (case sequence xs of Inl e \<Rightarrow> Inl e | Inr vs \<Rightarrow> Inr (v # vs)))"

subsection \<open>Element types and their promotion\<close>

text \<open>
  numpy's type promotion (\<open>numpy.promote_types\<close>) on booleans, the signed and unsigned
  integers of 8 to 64 bits and the floats of 16 to 64 bits.
\<close>

fun is_float :: "dtype \<Rightarrow> bool" where
  "is_float Float16 = True"
| "is_float Float32 = True"
| "is_float Float64 = True"
| "is_float _ = False"

fun is_signed :: "dtype \<Rightarrow> bool" where
  "is_signed Int8 = True"
| "is_signed Int16 = True"
| "is_signed Int32 = True"
| "is_signed Int64 = True"
| "is_signed _ = False"

fun is_unsigned :: "dtype \<Rightarrow> bool" where
  "is_unsigned UInt8 = True"
| "is_unsigned UInt16 = True"
| "is_unsigned UInt32 = True"
| "is_unsigned UInt64 = True"
| "is_unsigned _ = False"

fun bits :: "dtype \<Rightarrow> nat" where
  "bits Bool = 8"
| "bits Int8 = 8" | "bits Int16 = 16" | "bits Int32 = 32" | "bits Int64 = 64"
| "bits UInt8 = 8" | "bits UInt16 = 16" | "bits UInt32 = 32" | "bits UInt64 = 64"
| "bits Float16 = 16" | "bits Float32 = 32" | "bits Float64 = 64"

definition mk_int :: "nat \<Rightarrow> dtype" where
  "mk_int n = (if n \<le> 8 then Int8 else if n \<le> 16 then Int16 else if n \<le> 32 then Int32 else Int64)"

definition mk_uint :: "nat \<Rightarrow> dtype" where
  "mk_uint n = (if n \<le> 8 then UInt8 else if n \<le> 16 then UInt16 else if n \<le> 32 then UInt32 else UInt64)"

definition mk_float :: "nat \<Rightarrow> dtype" where
  "mk_float n = (if n \<le> 16 then Float16 else if n \<le> 32 then Float32 else Float64)"

text \<open>The smallest float that holds every value of an integer type of the given width.\<close>

definition float_for :: "nat \<Rightarrow> nat" where
  "float_for n = (if n \<le> 8 then 16 else if n \<le> 16 then 32 else 64)"

definition promote_types :: "dtype \<Rightarrow> dtype \<Rightarrow> dtype" where
  "promote_types a b =
     (if a = Bool then b
      else if b = Bool then a
      else if is_float a \<and> is_float b then mk_float (max (bits a) (bits b))
      else if is_float a then mk_float (max (bits a) (float_for (bits b)))
      else if is_float b then mk_float (max (bits b) (float_for (bits a)))
      else if is_signed a \<and> is_signed b then mk_int (max (bits a) (bits b))
      else if is_unsigned a \<and> is_unsigned b then mk_uint (max (bits a) (bits b))
      else (let s = (if is_signed a then a else b); u = (if is_signed a then b else a)
            in if bits u < bits s then s
               else if bits u < 64 then mk_int (2 * bits u)
               else Float64))"


subsection \<open>Construction, broadcasting and elementwise arithmetic\<close>

definition zeros :: "nat list \<Rightarrow> dtype \<Rightarrow> ('a::zero) ndarray" where
  "zeros shp d = \<lparr>shape = shp, dtype = d, data = replicate (prod_list shp) 0\<rparr>"


definition astype :: "dtype \<Rightarrow> 'a ndarray \<Rightarrow> 'a ndarray" where
  "astype d a = a\<lparr>dtype := d\<rparr>"

text \<open>\<open>numpy.any(a)\<close> is false: every element is zero.\<close>

definition is_zero :: "('a::zero) ndarray \<Rightarrow> bool" where
  "is_zero a = list_all (\<lambda>v. v = 0) (data a)"








text \<open>Elementwise sum of two arrays of one shape.\<close>

definition add_arrays :: "('a::plus) ndarray \<Rightarrow> 'a ndarray \<Rightarrow> 'a ndarray" where
  "add_arrays a b = a\<lparr>data := map2 (+) (data a) (data b)\<rparr>"

section \<open>Polynomial arrays\<close>

text \<open>
  A polynomial array: the names of its indeterminates, one exponent tuple per term slot,
  one coefficient array per term slot, and the shape and element type that all
  coefficient arrays share.
\<close>

record 'a ndpoly =
  names :: "string list"
  exponents :: "nat list list"
  coefficients :: "'a ndarray list"
  poly_shape :: "nat list"
  poly_dtype :: dtype

definition wf_poly :: "'a ndpoly \<Rightarrow> bool" where
  "wf_poly p =
     (exponents p \<noteq> [] \<and>
      length (exponents p) = length (coefficients p) \<and>
      distinct (exponents p) \<and>
      distinct (names p) \<and>
      list_all (\<lambda>e. length e = length (names p)) (exponents p) \<and>
      list_all (\<lambda>c. shape c = poly_shape p \<and> dtype c = poly_dtype p \<and> wf_array c)
        (coefficients p))"


subsection \<open>Construction and normalisation\<close>

text \<open>
  Modelled from the spec: \<open>from_attributes\<close>, \<open>clean_attributes\<close> and \<open>isconstant\<close>
  are methods of the polynomial array class, whose source is not among the files. The
  definitions follow section 4.1 of the specification: the arity of every exponent tuple
  is checked against the names, the coefficient arrays must share one shape and are
  converted to one element type, equal exponent tuples are merged by summing their
  coefficients (the order of first encounter is kept), and cleaning drops the term slots
  whose coefficient is zero everywhere, keeping one zero constant when nothing is left.
\<close>

fun add_term :: "(nat list \<times> ('a::plus) ndarray) list \<Rightarrow> nat list \<Rightarrow> 'a ndarray
    \<Rightarrow> (nat list \<times> 'a ndarray) list" where
  "add_term [] e c = [(e, c)]"
| "add_term ((e', c') # ts) e c =
     (if e' = e then (e', add_arrays c' c) # ts else (e', c') # add_term ts e c)"

definition merge_terms :: "(nat list \<times> ('a::plus) ndarray) list \<Rightarrow> (nat list \<times> 'a ndarray) list" where
  "merge_terms ts = foldl (\<lambda>acc (e, c). add_term acc e c) [] ts"

definition clean_terms :: "nat \<Rightarrow> nat list \<Rightarrow> dtype \<Rightarrow> (nat list \<times> ('a::zero) ndarray) list
    \<Rightarrow> (nat list \<times> 'a ndarray) list" where
  "clean_terms n shp d ts =
     (let kept = filter (\<lambda>(e, c). \<not> is_zero c) ts
      in if kept = [] then [(replicate n 0, zeros shp d)] else kept)"

definition common_dtype :: "dtype option \<Rightarrow> 'a ndarray list \<Rightarrow> dtype" where
  "common_dtype dt cs =
     (case dt of
        Some d \<Rightarrow> d
      | None \<Rightarrow> (case cs of [] \<Rightarrow> Float64 | c # cs' \<Rightarrow> foldl promote_types (dtype c) (map dtype cs')))"

definition from_attributes :: "nat list list \<Rightarrow> ('a::{zero,plus}) ndarray list \<Rightarrow> string list
    \<Rightarrow> dtype option \<Rightarrow> bool \<Rightarrow> error + 'a ndpoly" where
  "from_attributes exps coeffs nms dt clean =
     (if length exps \<noteq> length coeffs then Inl ShapeError
      else if \<not> list_all (\<lambda>e. length e = length nms) exps then Inl ShapeError
      else
        let shp = (case coeffs of [] \<Rightarrow> [] | c # _ \<Rightarrow> shape c);
            d = common_dtype dt coeffs
        in if \<not> list_all (\<lambda>c. shape c = shp) coeffs then Inl ShapeError
           else
             let merged = merge_terms (zip exps (map (astype d) coeffs));
                 ts = (if clean then clean_terms (length nms) shp d merged else merged)
             in Inr \<lparr>names = nms, exponents = map fst ts, coefficients = map snd ts,
                     poly_shape = shp, poly_dtype = d\<rparr>)"


text \<open>
  A polynomial array is constant when every term slot with a non-zero exponent has a
  coefficient that is zero everywhere.
\<close>

definition isconstant :: "('a::zero) ndpoly \<Rightarrow> bool" where
  "isconstant p =
     list_all (\<lambda>(e, c). list_all (\<lambda>k. k = 0) e \<or> is_zero c) (zip (exponents p) (coefficients p))"

section \<open>Alignment\<close>

text \<open>
  The functions of \<open>align.py\<close>. Every argument is a polynomial array already (the
  coercion \<open>aspolynomial\<close> is the identity on polynomial arrays), and a call with
  several arguments takes the list of them.
\<close>

subsection \<open>Indeterminates\<close>

text \<open>\<open>xs.index(x)\<close> for an element that occurs in \<open>xs\<close>.\<close>

definition index_of :: "'a list \<Rightarrow> 'a \<Rightarrow> nat" where
  "index_of xs x = length (takeWhile (\<lambda>y. y \<noteq> x) xs)"

definition common_names :: "('a::zero) ndpoly list \<Rightarrow> string list" where
  "common_names polys = sort (remdups (concat (map names (filter (\<lambda>p. \<not> isconstant p) polys))))"

text \<open>One row of \<open>exponents[:, indices] = poly.exponents\<close>, on a row of zeros.\<close>

definition scatter :: "nat \<Rightarrow> nat list \<Rightarrow> nat list \<Rightarrow> nat list" where
  "scatter n indices e = fold (\<lambda>(i, v) row. row[i := v]) (zip indices e) (replicate n 0)"

text \<open>
  The exponents over the common names. The assignment
  \<open>exponents[:, indices] = poly.exponents\<close> is skipped when no name of the array is
  among the common names, and numpy raises when the array has more names than indices.
\<close>

definition reindex :: "string list \<Rightarrow> 'a ndpoly \<Rightarrow> error + nat list list" where
  "reindex cnames p =
     (let indices = map (index_of cnames) (filter (\<lambda>name. name \<in> set cnames) (names p))
      in if indices = [] then Inr (map (\<lambda>e. replicate (length cnames) 0) (exponents p))
         else if length indices \<noteq> length (names p) then Inl ValueError
         else Inr (map (scatter (length cnames) indices) (exponents p)))"

definition indeterminants_step :: "string list \<Rightarrow> ('a::{zero,plus}) ndpoly \<Rightarrow> error + 'a ndpoly" where
  "indeterminants_step cnames p =
     (case reindex cnames p of
        Inl e \<Rightarrow> Inl e
      | Inr exps \<Rightarrow> from_attributes exps (coefficients p) cnames None False)"

definition align_indeterminants :: "('a::{zero,plus}) ndpoly list \<Rightarrow> error + 'a ndpoly list" where
  "align_indeterminants polys =
     (let cnames = common_names polys
      in if cnames = [] then Inr polys
         else sequence (map (indeterminants_step cnames) polys))"

subsection \<open>Exponents\<close>

text \<open>A Python dictionary built from key-value pairs: a later pair replaces an earlier one.\<close>

definition dict_of :: "('k \<times> 'v) list \<Rightarrow> 'k \<rightharpoonup> 'v" where
  "dict_of kvs = map_of (rev kvs)"

definition global_exponents :: "'a ndpoly list \<Rightarrow> nat list list" where
  "global_exponents polys =
     foldl (\<lambda>g p. g @ filter (\<lambda>e. e \<notin> set g) (exponents p)) (exponents (hd polys)) (tl polys)"

definition fill_coefficients :: "nat list list \<Rightarrow> ('a::zero) ndpoly \<Rightarrow> 'a ndarray list" where
  "fill_coefficients g p =
     (let lookup = dict_of (zip (exponents p) (coefficients p))
      in map (\<lambda>e. case lookup e of Some c \<Rightarrow> c | None \<Rightarrow> zeros (poly_shape p) (poly_dtype p)) g)"

text \<open>The second half of \<open>align_exponents\<close>, on arrays whose names are aligned.\<close>

definition fill_exponents :: "('a::{zero,plus}) ndpoly list \<Rightarrow> error + 'a ndpoly list" where
  "fill_exponents ps =
     (if ps = [] then Inl IndexError
      else
        let g = global_exponents ps
        in sequence (map (\<lambda>p. from_attributes g (fill_coefficients g p) (names p) None False) ps))"

definition align_exponents :: "('a::{zero,plus}) ndpoly list \<Rightarrow> error + 'a ndpoly list" where
  "align_exponents polys =
     (case (if list_all (\<lambda>p. names (hd polys) = names p) polys then Inr polys
            else align_indeterminants polys) of
        Inl e \<Rightarrow> Inl e
      | Inr ps \<Rightarrow> fill_exponents ps)"

subsection \<open>Shape\<close>





subsection \<open>Element type\<close>



subsection \<open>The four steps in order\<close>


section \<open>Notions of the specification\<close>

text \<open>
  The stable union of the specification: the elements of the lists in order, each one at
  the place of its first occurrence.
\<close>

definition first_occurrences :: "'a list \<Rightarrow> 'a list" where
  "first_occurrences xs = rev (remdups (rev xs))"

definition stable_union :: "'a list list \<Rightarrow> 'a list" where
  "stable_union xss = first_occurrences (concat xss)"

text \<open>The coefficient array that a polynomial array holds for an exponent tuple.\<close>

definition coefficient_at :: "'a ndpoly \<Rightarrow> nat list \<Rightarrow> 'a ndarray option" where
  "coefficient_at p e = map_of (zip (exponents p) (coefficients p)) e"

section \<open>Example arrays\<close>

text \<open>
  The arrays of the docstring of \<open>align_exponents\<close>: \<open>x*y\<close> and
  \<open>[x**5, y**3-1]\<close>, over the names \<open>x\<close> and \<open>y\<close>.
\<close>

definition example_xy :: "int ndpoly" where
  "example_xy = \<lparr>names = [''x'', ''y''], exponents = [[1, 1]],
     coefficients = [\<lparr>shape = [], dtype = Int64, data = [1]\<rparr>],
     poly_shape = [], poly_dtype = Int64\<rparr>"

definition example_pair :: "int ndpoly" where
  "example_pair = \<lparr>names = [''x'', ''y''], exponents = [[0, 0], [0, 3], [5, 0]],
     coefficients = [\<lparr>shape = [2], dtype = Int64, data = [0, - 1]\<rparr>,
                     \<lparr>shape = [2], dtype = Int64, data = [0, 1]\<rparr>,
                     \<lparr>shape = [2], dtype = Int64, data = [1, 0]\<rparr>],
     poly_shape = [2], poly_dtype = Int64\<rparr>"

subsection \<open>Shapes\<close>













definition poly_x :: "int ndpoly" where
  "poly_x = \<lparr>names = [''x''], exponents = [[1]],
     coefficients = [\<lparr>shape = [], dtype = Int64, data = [1]\<rparr>],
     poly_shape = [], poly_dtype = Int64\<rparr>"

definition poly_y :: "int ndpoly" where
  "poly_y = \<lparr>names = [''y''], exponents = [[1]],
     coefficients = [\<lparr>shape = [], dtype = Int64, data = [1]\<rparr>],
     poly_shape = [], poly_dtype = Int64\<rparr>"

definition const_one :: "int ndpoly" where
  "const_one = \<lparr>names = [''q''], exponents = [[0]],
     coefficients = [\<lparr>shape = [], dtype = Int64, data = [1]\<rparr>],
     poly_shape = [], poly_dtype = Int64\<rparr>"

definition const_one_xy :: "int ndpoly" where
  "const_one_xy = \<lparr>names = [''x'', ''y''], exponents = [[0, 0]],
     coefficients = [\<lparr>shape = [], dtype = Int64, data = [1]\<rparr>],
     poly_shape = [], poly_dtype = Int64\<rparr>"

subsection \<open>Values\<close>


definition monomial :: "(string \<Rightarrow> 'a) \<Rightarrow> string list \<Rightarrow> nat list \<Rightarrow> ('a::comm_ring_1)" where
  "monomial \<rho> nms e = prod_list (map2 (\<lambda>n k. \<rho> n ^ k) nms e)"

definition terms_at :: "(string \<Rightarrow> 'a) \<Rightarrow> string list \<Rightarrow> (nat list \<times> 'a ndarray) list \<Rightarrow> nat \<Rightarrow> ('a::comm_ring_1)" where
  "terms_at \<rho> nms ts i = sum_list (map (\<lambda>(e, c). monomial \<rho> nms e * (data c ! i)) ts)"



definition terms_ok :: "nat list \<Rightarrow> dtype \<Rightarrow> (nat list \<times> 'a ndarray) list \<Rightarrow> bool" where
  "terms_ok shp d ts = list_all (\<lambda>(e, c). shape c = shp \<and> dtype c = d \<and> wf_array c) ts"


subsection \<open>Results of the alignment steps\<close>








section \<open>Proofs\<close>

subsection \<open>Auxiliary facts\<close>

lemma promote_types_same: "promote_types d d = d"
  by (cases d) (simp_all add: promote_types_def mk_int_def mk_uint_def mk_float_def)

lemma foldl_promote_same:
  "list_all (\<lambda>c. dtype c = d) cs \<Longrightarrow> foldl promote_types d (map dtype cs) = d"
  by (induction cs) (simp_all add: promote_types_same)

lemma fo_append:
  "first_occurrences (xs @ ys) = first_occurrences xs @ filter (\<lambda>y. y \<notin> set xs) (first_occurrences ys)"
proof -
  have "remdups (us @ vs) = filter (\<lambda>y. y \<notin> set vs) (remdups us) @ remdups vs" for us vs :: "'a list"
    by (induction us) auto
  from this[of "rev ys" "rev xs"] show ?thesis by (simp add: first_occurrences_def rev_filter)
qed

lemma fo_distinct: "distinct xs \<Longrightarrow> first_occurrences xs = xs"
  by (simp add: first_occurrences_def distinct_remdups_id)

lemma set_fo: "set (first_occurrences xs) = set xs"
  by (simp add: first_occurrences_def)

lemma add_term_fresh: "e \<notin> fst ` set ts \<Longrightarrow> add_term ts e c = ts @ [(e, c)]"
  by (induction ts) auto

lemma foldl_add_term_distinct:
  "distinct (map fst (acc @ ts)) \<Longrightarrow> foldl (\<lambda>acc (e, c). add_term acc e c) acc ts = acc @ ts"
proof (induction ts arbitrary: acc)
  case Nil
  then show ?case by simp
next
  case (Cons t ts)
  obtain e c where t: "t = (e, c)" by (cases t)
  from Cons.prems have "e \<notin> fst ` set acc" by (auto simp: t)
  then have "add_term acc e c = acc @ [(e, c)]" by (rule add_term_fresh)
  moreover from Cons.prems have "distinct (map fst ((acc @ [(e, c)]) @ ts))" by (simp add: t)
  ultimately show ?case using Cons.IH[of "acc @ [(e, c)]"] by (simp add: t)
qed

lemma merge_terms_distinct: "distinct (map fst ts) \<Longrightarrow> merge_terms ts = ts"
  using foldl_add_term_distinct[of "[]" ts] by (simp add: merge_terms_def)

lemma dict_of_distinct: "distinct (map fst kvs) \<Longrightarrow> dict_of kvs = map_of kvs"
  unfolding dict_of_def by (subst map_of_inject_set) (simp_all add: rev_map[symmetric])

lemma global_exponents_fold:
  "list_all (\<lambda>p. distinct (exponents p)) ps \<Longrightarrow>
   foldl (\<lambda>g p. g @ filter (\<lambda>e. e \<notin> set g) (exponents p)) (first_occurrences xs) ps
     = first_occurrences (xs @ concat (map exponents ps))"
proof (induction ps arbitrary: xs)
  case Nil
  then show ?case by simp
next
  case (Cons p ps)
  have "first_occurrences xs @ filter (\<lambda>e. e \<notin> set (first_occurrences xs)) (exponents p)
      = first_occurrences (xs @ exponents p)"
    using Cons.prems by (simp add: fo_append set_fo fo_distinct)
  then show ?case using Cons.IH[of "xs @ exponents p"] Cons.prems by simp
qed

lemma global_exponents_stable_union:
  assumes "ps \<noteq> []" "list_all (\<lambda>p. distinct (exponents p)) ps"
  shows "global_exponents ps = stable_union (map exponents ps)"
proof -
  obtain p ps' where ps: "ps = p # ps'" using assms(1) by (cases ps) auto
  have "distinct (exponents p)" "list_all (\<lambda>p. distinct (exponents p)) ps'" using assms(2) by (auto simp: ps)
  then show ?thesis
    using global_exponents_fold[of ps' "exponents p"]
    by (simp add: global_exponents_def stable_union_def ps fo_distinct)
qed

lemma astype_same: "dtype c = d \<Longrightarrow> astype d c = c"
  by (simp add: astype_def)

lemma map_astype_same: "list_all (\<lambda>c. dtype c = d) cs \<Longrightarrow> map (astype d) cs = cs"
  by (induction cs) (simp_all add: astype_same)

lemma from_attributes_plain:
  assumes len: "length exps = length coeffs" and ne: "exps \<noteq> []"
    and ar: "list_all (\<lambda>e. length e = length nms) exps"
    and di: "distinct exps"
    and sh: "list_all (\<lambda>c. shape c = shp) coeffs"
    and dt: "list_all (\<lambda>c. dtype c = d) coeffs"
  shows "from_attributes exps coeffs nms None False =
    Inr \<lparr>names = nms, exponents = exps, coefficients = coeffs, poly_shape = shp, poly_dtype = d\<rparr>"
proof -
  obtain c cs where cs: "coeffs = c # cs" using len ne by (cases coeffs) auto
  have shp: "(case coeffs of [] \<Rightarrow> [] | c # _ \<Rightarrow> shape c) = shp" using sh by (simp add: cs)
  have d: "common_dtype None coeffs = d"
    using dt by (simp add: cs common_dtype_def foldl_promote_same)
  have m: "merge_terms (zip exps (map (astype d) coeffs)) = zip exps coeffs"
    using di len dt by (simp add: map_astype_same merge_terms_distinct)
  show ?thesis
    unfolding from_attributes_def Let_def shp d m using len ar sh by simp
qed

lemma sequence_map_Inr:
  "(\<And>x. x \<in> set xs \<Longrightarrow> f x = Inr (g x)) \<Longrightarrow> sequence (map f xs) = Inr (map g xs)"
  by (induction xs) simp_all

lemma fill_exponents_explicit:
  fixes polys :: "('a::{zero,plus}) ndpoly list"
  assumes ne: "polys \<noteq> []" and wf: "list_all wf_poly polys"
    and nm: "list_all (\<lambda>p. length (names p) = n) polys"
  shows "fill_exponents polys =
     Inr (map (\<lambda>p. \<lparr>names = names p, exponents = stable_union (map exponents polys),
                      coefficients = fill_coefficients (stable_union (map exponents polys)) p,
                      poly_shape = poly_shape p, poly_dtype = poly_dtype p\<rparr>) polys)"
proof -
  let ?G = "stable_union (map exponents polys)"
  have dist: "list_all (\<lambda>p. distinct (exponents p)) polys"
    using wf by (auto simp: list_all_iff wf_poly_def)
  have G: "global_exponents polys = ?G"
    using ne dist by (rule global_exponents_stable_union)
  have setG: "set ?G = (\<Union>p\<in>set polys. set (exponents p))"
    by (simp add: stable_union_def set_fo)
  have Gne: "?G \<noteq> []"
  proof -
    have "hd polys \<in> set polys" using ne by simp
    moreover have "exponents (hd polys) \<noteq> []" using wf calculation by (auto simp: list_all_iff wf_poly_def)
    ultimately have "\<exists>p\<in>set polys. set (exponents p) \<noteq> {}" by (intro bexI[of _ "hd polys"]) auto
    then have "set ?G \<noteq> {}" unfolding setG by simp
    then show ?thesis by auto
  qed
  have Gdist: "distinct ?G" by (simp add: stable_union_def first_occurrences_def)
  have step: "from_attributes ?G (fill_coefficients ?G p) (names p) None False =
      Inr \<lparr>names = names p, exponents = ?G, coefficients = fill_coefficients ?G p,
           poly_shape = poly_shape p, poly_dtype = poly_dtype p\<rparr>" if p: "p \<in> set polys" for p
  proof (rule from_attributes_plain)
    show "length ?G = length (fill_coefficients ?G p)" by (simp add: fill_coefficients_def)
    show "?G \<noteq> []" by (rule Gne)
    show "distinct ?G" by (rule Gdist)
    have nmp: "length (names q) = length (names p)" if "q \<in> set polys" for q
    proof -
      have "length (names q) = n" "length (names p) = n"
        using nm p that unfolding list_all_iff by blast+
      then show ?thesis by simp
    qed
    show "list_all (\<lambda>e. length e = length (names p)) ?G"
      unfolding list_all_iff setG using wf nmp by (fastforce simp: list_all_iff wf_poly_def)
    have wfp: "wf_poly p" using wf p by (auto simp: list_all_iff)
    have look: "shape c = poly_shape p \<and> dtype c = poly_dtype p"
      if "dict_of (zip (exponents p) (coefficients p)) e = Some c" for e c
    proof -
      have "dict_of (zip (exponents p) (coefficients p)) = map_of (zip (exponents p) (coefficients p))"
        using wfp by (intro dict_of_distinct) (simp add: wf_poly_def)
      with that have "c \<in> set (coefficients p)" by (auto dest: map_of_SomeD set_zip_rightD)
      then show ?thesis using wfp by (auto simp: wf_poly_def list_all_iff)
    qed
    show "list_all (\<lambda>c. shape c = poly_shape p) (fill_coefficients ?G p)"
      by (auto simp: list_all_iff fill_coefficients_def zeros_def dest: look split: option.splits)
    show "list_all (\<lambda>c. dtype c = poly_dtype p) (fill_coefficients ?G p)"
      by (auto simp: list_all_iff fill_coefficients_def zeros_def dest: look split: option.splits)
  qed
  show ?thesis
    unfolding fill_exponents_def using ne
    by (simp add: G Let_def sequence_map_Inr step)
qed

lemma align_exponents_same_names:
  fixes polys :: "('a::{zero,plus}) ndpoly list"
  assumes ne: "polys \<noteq> []" and wf: "list_all wf_poly polys"
    and nm: "list_all (\<lambda>p. names (hd polys) = names p) polys"
  shows "align_exponents polys =
     Inr (map (\<lambda>p. \<lparr>names = names p, exponents = stable_union (map exponents polys),
                      coefficients = fill_coefficients (stable_union (map exponents polys)) p,
                      poly_shape = poly_shape p, poly_dtype = poly_dtype p\<rparr>) polys)"
proof -
  have "list_all (\<lambda>p. length (names p) = length (names (hd polys))) polys"
    using nm by (simp add: list_all_iff)
  from fill_exponents_explicit[OF ne wf this] nm show ?thesis
    by (simp add: align_exponents_def)
qed

subsection \<open>Exponent alignment\<close>

text \<open>
  Claim C1. On polynomial arrays that share their names, \<open>align_exponents\<close> returns
  one array per input. Every output has the stable union of the inputs' exponent lists
  as its exponent list (the first array's tuples in their order, then the tuples of each
  later array that are not yet present). In every output the coefficient at a tuple of
  its input is the input's coefficient, and the coefficient at a tuple that its input
  lacks is the zero array of the input's shape and element type.
\<close>

theorem align_exponents_stable_union:
  fixes polys :: "('a::{zero,plus}) ndpoly list"
  assumes ne: "polys \<noteq> []" and wf: "list_all wf_poly polys"
    and nm: "list_all (\<lambda>p. names (hd polys) = names p) polys"
  shows "\<exists>outs. align_exponents polys = Inr outs \<and> length outs = length polys \<and>
     (\<forall>i<length polys.
        names (outs ! i) = names (polys ! i) \<and>
        exponents (outs ! i) = stable_union (map exponents polys) \<and>
        length (coefficients (outs ! i)) = length (exponents (outs ! i)) \<and>
        (\<forall>k<length (exponents (polys ! i)).
           coefficient_at (outs ! i) (exponents (polys ! i) ! k) = Some (coefficients (polys ! i) ! k)) \<and>
        (\<forall>e\<in>set (stable_union (map exponents polys)). e \<notin> set (exponents (polys ! i)) \<longrightarrow>
           coefficient_at (outs ! i) e = Some (zeros (poly_shape (polys ! i)) (poly_dtype (polys ! i)))))"
proof -
  let ?G = "stable_union (map exponents polys)"
  let ?out = "\<lambda>p. \<lparr>names = names p, exponents = ?G, coefficients = fill_coefficients ?G p,
                      poly_shape = poly_shape p, poly_dtype = poly_dtype p\<rparr>"
  have eq: "align_exponents polys = Inr (map ?out polys)"
    using ne wf nm by (rule align_exponents_same_names)
  have setG: "set ?G = (\<Union>p\<in>set polys. set (exponents p))"
    by (simp add: stable_union_def set_fo)
  have at: "coefficient_at (?out p) e =
      Some (case dict_of (zip (exponents p) (coefficients p)) e of Some c \<Rightarrow> c
            | None \<Rightarrow> zeros (poly_shape p) (poly_dtype p))" if "e \<in> set ?G" for p :: "'a ndpoly" and e
    using that by (simp add: coefficient_at_def fill_coefficients_def map_of_zip_map)
  have props: "(\<forall>k<length (exponents p). coefficient_at (?out p) (exponents p ! k) = Some (coefficients p ! k)) \<and>
        (\<forall>e\<in>set ?G. e \<notin> set (exponents p) \<longrightarrow>
           coefficient_at (?out p) e = Some (zeros (poly_shape p) (poly_dtype p)))"
    if p: "p \<in> set polys" for p
  proof -
    have wfp: "wf_poly p" using wf p by (auto simp: list_all_iff)
    then have len: "length (exponents p) = length (coefficients p)" and di: "distinct (exponents p)"
      by (simp_all add: wf_poly_def)
    have d: "dict_of (zip (exponents p) (coefficients p)) = map_of (zip (exponents p) (coefficients p))"
      using len di by (intro dict_of_distinct) simp
    have a: "coefficient_at (?out p) (exponents p ! k) = Some (coefficients p ! k)" if k: "k < length (exponents p)" for k
    proof -
      have "exponents p ! k \<in> set (exponents p)" using k by simp
      then have "exponents p ! k \<in> set ?G" unfolding setG using p by blast
      moreover have "map_of (zip (exponents p) (coefficients p)) (exponents p ! k) = Some (coefficients p ! k)"
        using len di k by (intro map_of_zip_nth) simp_all
      ultimately show ?thesis by (simp add: at d)
    qed
    have b: "coefficient_at (?out p) e = Some (zeros (poly_shape p) (poly_dtype p))"
      if "e \<in> set ?G" "e \<notin> set (exponents p)" for e
    proof -
      have "map_of (zip (exponents p) (coefficients p)) e = None"
        using len that(2) by (simp add: map_of_zip_is_None)
      then show ?thesis using that(1) by (simp add: at d)
    qed
    from a b show ?thesis by blast
  qed
  have "\<forall>i<length polys.
        names (map ?out polys ! i) = names (polys ! i) \<and>
        exponents (map ?out polys ! i) = ?G \<and>
        length (coefficients (map ?out polys ! i)) = length (exponents (map ?out polys ! i)) \<and>
        (\<forall>k<length (exponents (polys ! i)).
           coefficient_at (map ?out polys ! i) (exponents (polys ! i) ! k) = Some (coefficients (polys ! i) ! k)) \<and>
        (\<forall>e\<in>set ?G. e \<notin> set (exponents (polys ! i)) \<longrightarrow>
           coefficient_at (map ?out polys ! i) e = Some (zeros (poly_shape (polys ! i)) (poly_dtype (polys ! i))))"
  proof (intro allI impI)
    fix i assume i: "i < length polys"
    then have "polys ! i \<in> set polys" by simp
    from props[OF this] i show "names (map ?out polys ! i) = names (polys ! i) \<and>
        exponents (map ?out polys ! i) = ?G \<and>
        length (coefficients (map ?out polys ! i)) = length (exponents (map ?out polys ! i)) \<and>
        (\<forall>k<length (exponents (polys ! i)).
           coefficient_at (map ?out polys ! i) (exponents (polys ! i) ! k) = Some (coefficients (polys ! i) ! k)) \<and>
        (\<forall>e\<in>set ?G. e \<notin> set (exponents (polys ! i)) \<longrightarrow>
           coefficient_at (map ?out polys ! i) e = Some (zeros (poly_shape (polys ! i)) (poly_dtype (polys ! i))))"
      by (simp add: fill_coefficients_def)
  qed
  with eq show ?thesis by (intro exI[of _ "map ?out polys"]) simp
qed

text \<open>
  The scenario of the docstring: \<open>x*y\<close> aligned with \<open>[x**5, y**3-1]\<close> gives both
  arrays the four exponent tuples \<open>(1,1), (0,0), (0,3), (5,0)\<close>, and \<open>x*y\<close> the
  coefficients \<open>1, 0, 0, 0\<close>.
\<close>

theorem align_exponents_stable_union_witness:
  "[example_xy, example_pair] \<noteq> [] \<and> list_all wf_poly [example_xy, example_pair] \<and>
   list_all (\<lambda>p. names (hd [example_xy, example_pair]) = names p) [example_xy, example_pair] \<and>
   (\<exists>outs. align_exponents [example_xy, example_pair] = Inr outs \<and>
      map exponents outs = [[[1, 1], [0, 0], [0, 3], [5, 0]], [[1, 1], [0, 0], [0, 3], [5, 0]]] \<and>
      map data (coefficients (outs ! 0)) = [[1], [0], [0], [0]] \<and>
      map data (coefficients (outs ! 1)) = [[0, 0], [0, - 1], [0, 1], [1, 0]])"
proof -
  let ?ps = "[example_xy, example_pair]"
  have h1: "?ps \<noteq> []" by simp
  have h2: "list_all wf_poly ?ps"
    by (simp add: wf_poly_def wf_array_def example_xy_def example_pair_def)
  have h3: "list_all (\<lambda>p. names (hd ?ps) = names p) ?ps"
    by (simp add: example_xy_def example_pair_def)
  have su: "stable_union (map exponents ?ps) = [[1, 1], [0, 0], [0, 3], [5, 0]]"
    by (simp add: stable_union_def first_occurrences_def example_xy_def example_pair_def)
  from align_exponents_stable_union[OF h1 h2 h3] obtain outs where
    o: "align_exponents ?ps = Inr outs" and len: "length outs = 2"
    and ex: "\<forall>i<2. exponents (outs ! i) = stable_union (map exponents ?ps)"
    by auto
  have ev: "align_exponents ?ps = Inr
     [\<lparr>names = [''x'', ''y''], exponents = [[1, 1], [0, 0], [0, 3], [5, 0]],
         coefficients =
           [\<lparr>shape = [], dtype = Int64, data = [1]\<rparr>,
            \<lparr>shape = [], dtype = Int64, data = [0]\<rparr>,
            \<lparr>shape = [], dtype = Int64, data = [0]\<rparr>,
            \<lparr>shape = [], dtype = Int64, data = [0]\<rparr>],
         poly_shape = [], poly_dtype = Int64\<rparr>,
      \<lparr>names = [''x'', ''y''], exponents = [[1, 1], [0, 0], [0, 3], [5, 0]],
         coefficients =
           [\<lparr>shape = [2], dtype = Int64, data = [0, 0]\<rparr>,
            \<lparr>shape = [2], dtype = Int64, data = [0, - 1]\<rparr>,
            \<lparr>shape = [2], dtype = Int64, data = [0, 1]\<rparr>,
            \<lparr>shape = [2], dtype = Int64, data = [1, 0]\<rparr>],
         poly_shape = [2], poly_dtype = Int64\<rparr>]"
    by code_simp
  from o ev ex len show ?thesis using h1 h2 h3 by (auto simp: su)
qed

subsection \<open>Shape alignment\<close>


































subsection \<open>Indeterminate alignment\<close>

text \<open>
  Claim C2 holds for the arrays of the specification's scenario, but not for every call.
  Aligning the constant 1 with \<open>x*y\<close> gives a constant array over the names
  \<open>x\<close> and \<open>y\<close>. Aligning that array with \<open>x\<close> makes \<open>x\<close> the only common
  name, the array has one index for its two names, and the assignment
  \<open>exponents[:, indices] = poly.exponents\<close> raises.
\<close>

lemma align_indeterminants_scenario:
  "align_indeterminants [poly_x, poly_y] =
     Inr [\<lparr>names = [''x'', ''y''], exponents = [[1, 0]],
            coefficients = [\<lparr>shape = [], dtype = Int64, data = [1]\<rparr>],
            poly_shape = [], poly_dtype = Int64\<rparr>,
          \<lparr>names = [''x'', ''y''], exponents = [[0, 1]],
            coefficients = [\<lparr>shape = [], dtype = Int64, data = [1]\<rparr>],
            poly_shape = [], poly_dtype = Int64\<rparr>]"
  by code_simp

theorem align_indeterminants_partial_names_raises:
  "wf_poly const_one \<and> wf_poly example_xy \<and> wf_poly poly_x \<and>
   align_indeterminants [const_one, example_xy] = Inr [const_one_xy, example_xy] \<and>
   wf_poly const_one_xy \<and> isconstant const_one_xy \<and>
   common_names [const_one_xy, poly_x] = [''x''] \<and>
   align_indeterminants [const_one_xy, poly_x] = Inl ValueError"
proof -
  have "wf_poly const_one" "wf_poly example_xy" "wf_poly poly_x" "wf_poly const_one_xy"
    by (simp_all add: wf_poly_def wf_array_def const_one_def example_xy_def poly_x_def const_one_xy_def)
  moreover have "align_indeterminants [const_one, example_xy] = Inr [const_one_xy, example_xy]"
    by code_simp
  moreover have "isconstant const_one_xy" by code_simp
  moreover have "common_names [const_one_xy, poly_x] = [''x'']" by code_simp
  moreover have "align_indeterminants [const_one_xy, poly_x] = Inl ValueError" by code_simp
  ultimately show ?thesis by simp
qed

subsection \<open>Broadcasting, merging and cleaning\<close>


















lemma terms_ok_append: "terms_ok shp d (ts @ us) \<longleftrightarrow> terms_ok shp d ts \<and> terms_ok shp d us"
  by (simp add: terms_ok_def)



lemma terms_at_append: "terms_at \<rho> nms (ts @ us) i = terms_at \<rho> nms ts i + terms_at \<rho> nms us i"
  by (simp add: terms_at_def)













lemma is_zero_zeros: "is_zero (zeros shp d)"
  by (simp add: is_zero_def zeros_def list_all_iff)













subsection \<open>The exponent and element type steps, array by array\<close>







subsection \<open>The shape step, array by array\<close>














subsection \<open>The indeterminate step, array by array\<close>














lemma isconstant_no_names: "wf_poly p \<Longrightarrow> names p = [] \<Longrightarrow> isconstant p"
  by (auto simp: isconstant_def wf_poly_def list_all_iff dest!: set_zip_leftD)
















end
